theory Spec2Isabelle
  imports Main "HOL-Library.Word"
begin

unbundle bit_operations_syntax

section \<open>Data model (include/JIT\_compiler.hpp)\<close>

text \<open>
  The parse tree.  \<open>Plus'\<close> carries a prime because \<open>Plus\<close> is a constant of HOL's
  sum types; every other name is the source's.  A default-constructed node has type
  \<open>Default\<close>, no content and no children.
\<close>

datatype ExpressionType = Constant | Default | Variable | Plus' | Minus | Product | Function

datatype Node =
  Node (type: ExpressionType) (content: "string option") (sub_expressions: "Node list")

datatype ARM_INSTRUCTION =
  ADD | SUB | MUL | BLX | LDR_FROM_NEXT | LDR_REG
  | PUSH_MULT_REG | PUSH_REG | POP_MULT_REG | POP_REG | WORD_DECL

text \<open>
  \<open>ARM_REGISTER\<close> is a scoped enumeration over \<open>int\<close>.  \<open>handle_function\<close> builds its
  values with a \<open>static_cast\<close> from a number, so a register is modelled by its
  underlying value; the seven enumerators are the values 0 to 6.
\<close>

datatype ARM_REGISTER = ARM_R (reg_val: nat)

abbreviation R0 :: ARM_REGISTER where "R0 \<equiv> ARM_R 0"
abbreviation R1 :: ARM_REGISTER where "R1 \<equiv> ARM_R 1"
abbreviation R2 :: ARM_REGISTER where "R2 \<equiv> ARM_R 2"
abbreviation R3 :: ARM_REGISTER where "R3 \<equiv> ARM_R 3"
abbreviation R4 :: ARM_REGISTER where "R4 \<equiv> ARM_R 4"
abbreviation LR :: ARM_REGISTER where "LR \<equiv> ARM_R 5"
abbreviation PC :: ARM_REGISTER where "PC \<equiv> ARM_R 6"

type_synonym instruction_t =
  "ARM_INSTRUCTION \<times> ARM_REGISTER option \<times> ARM_REGISTER option \<times> string option"

text \<open>
  \<open>std::map<std::string, void*>\<close>: the target is 32-bit ARM, a pointer is a 32-bit word.
\<close>

type_synonym address_map = "string \<rightharpoonup> 32 word"

text \<open>
  What can go wrong: the exceptions of the standard library that the code lets escape,
  a failed \<open>assert\<close>, and behaviour the language leaves undefined (reading an empty
  \<open>std::optional\<close>, indexing a vector out of range).
\<close>

datatype error = out_of_range | invalid_argument | assertion_failed | undefined_behaviour

section \<open>The standard-library calls the code relies on\<close>

definition isspace :: "char \<Rightarrow> bool" where
  "isspace c = (c = CHR '' '' \<or> (9 \<le> (of_char c :: nat) \<and> (of_char c :: nat) \<le> 13))"

definition digit_value :: "char \<Rightarrow> nat option" where
  "digit_value c =
     (let n = (of_char c :: nat) in
      if 48 \<le> n \<and> n \<le> 57 then Some (n - 48)
      else if 97 \<le> n \<and> n \<le> 122 then Some (n - 87)
      else if 65 \<le> n \<and> n \<le> 90 then Some (n - 55)
      else None)"

definition is_digit_in :: "nat \<Rightarrow> char \<Rightarrow> bool" where
  "is_digit_in base c = (case digit_value c of None \<Rightarrow> False | Some d \<Rightarrow> d < base)"

definition digits_value :: "nat \<Rightarrow> string \<Rightarrow> nat" where
  "digits_value base ds =
     foldl (\<lambda>a c. case digit_value c of None \<Rightarrow> a | Some d \<Rightarrow> a * base + d) 0 ds"

definition strip_sign :: "string \<Rightarrow> bool \<times> string" where
  "strip_sign s =
     (case s of
        [] \<Rightarrow> (False, [])
      | c # r \<Rightarrow> if c = CHR ''-'' then (True, r)
                 else if c = CHR ''+'' then (False, r)
                 else (False, s))"

text \<open>
  \<open>std::stoi(str)\<close>: \<open>strtol\<close> in base 10 (white space, an optional sign, the longest
  run of digits), \<open>std::invalid_argument\<close> when there is no digit, \<open>std::out_of_range\<close>
  when the value is not an \<open>int\<close>.
\<close>

definition stoi :: "string \<Rightarrow> error + int" where
  "stoi str =
     (let (neg, s) = strip_sign (dropWhile isspace str);
          ds = takeWhile (is_digit_in 10) s;
          v = int (digits_value 10 ds);
          r = (if neg then - v else v)
      in if ds = [] then Inl invalid_argument
         else if r < - (2 ^ 31) \<or> 2 ^ 31 - 1 < r then Inl out_of_range
         else Inr r)"

text \<open>
  \<open>std::stoul(str, nullptr, 0)\<close>: \<open>strtoul\<close> with the base taken from the prefix
  (\<open>0x\<close> or \<open>0X\<close> before a hexadecimal digit: 16; a leading \<open>0\<close>: 8; otherwise 10).
  \<open>unsigned long\<close> has 32 bits on the target; a minus sign negates the result modulo
  \<open>2 ^ 32\<close>, as \<open>strtoul\<close> does.
\<close>

definition stoul_base :: "string \<Rightarrow> nat \<times> string" where
  "stoul_base s =
     (case s of
        c0 # cx # d # r \<Rightarrow>
          if c0 = CHR ''0'' \<and> (cx = CHR ''x'' \<or> cx = CHR ''X'') \<and> is_digit_in 16 d
          then (16, d # r)
          else if c0 = CHR ''0'' then (8, s) else (10, s)
      | c0 # r \<Rightarrow> if c0 = CHR ''0'' then (8, s) else (10, s)
      | [] \<Rightarrow> (10, s))"

definition stoul :: "string \<Rightarrow> error + 32 word" where
  "stoul str =
     (let (neg, s) = strip_sign (dropWhile isspace str);
          (base, t) = stoul_base s;
          ds = takeWhile (is_digit_in base) t;
          v = digits_value base ds
      in if ds = [] then Inl invalid_argument
         else if 2 ^ 32 \<le> v then Inl out_of_range
         else Inr (if neg then - word_of_nat v else word_of_nat v))"

text \<open>
  \<open>std::string::substr(pos, len)\<close> throws \<open>std::out_of_range\<close> when \<open>pos\<close> is beyond
  the end and otherwise stops at the end of the string.
\<close>

definition substr :: "string \<Rightarrow> nat \<Rightarrow> nat \<Rightarrow> error + string" where
  "substr s pos len = (if length s < pos then Inl out_of_range else Inr (take len (drop pos s)))"

text \<open>
  Stream output.  Under \<open>std::hex\<close> an \<open>int\<close> is printed as the \<open>unsigned int\<close> of the
  same bits, in lower case and without leading zeros.  A \<open>void*\<close> is printed by
  libstdc++ as an \<open>unsigned long\<close> with \<open>hex\<close> and \<open>showbase\<close>: \<open>0x\<close> and the digits,
  and plain \<open>0\<close> for the null pointer.
\<close>

definition hex_char :: "nat \<Rightarrow> char" where
  "hex_char d = ''0123456789abcdef'' ! d"

fun hex_digits :: "nat \<Rightarrow> string" where
  "hex_digits n = (if n < 16 then [hex_char n] else hex_digits (n div 16) @ [hex_char (n mod 16)])"

declare hex_digits.simps [simp del]

definition show_hex_int :: "int \<Rightarrow> string" where
  "show_hex_int v = hex_digits (nat (v mod 2 ^ 32))"

definition show_pointer :: "32 word \<Rightarrow> string" where
  "show_pointer p = (if p = 0 then ''0'' else ''0x'' @ hex_digits (unat p))"

section \<open>Parser: constants (ExpressionParser::ParseConstant)\<close>

text \<open>
  Iterators into \<open>expression_\<close> are positions.  \<open>std::distance(left, right)\<close> is a signed
  difference that \<open>substr\<close> receives as a \<open>size_t\<close> of 32 bits.
\<close>

definition distance_size_t :: "nat \<Rightarrow> nat \<Rightarrow> nat" where
  "distance_size_t left right = nat ((int right - int left) mod 2 ^ 32)"

definition IsConstant :: "string \<Rightarrow> nat \<Rightarrow> bool" where
  "IsConstant expression left =
     (left < length expression \<and>
      (of_char CHR ''0'' :: nat) \<le> of_char (expression ! left) \<and>
      (of_char (expression ! left) :: nat) \<le> of_char CHR ''9'')"

definition ParseConstant :: "string \<Rightarrow> Node \<Rightarrow> nat \<Rightarrow> nat \<Rightarrow> error + Node" where
  "ParseConstant expression current_node left right =
     (case substr expression left (distance_size_t left right) of
        Inl e \<Rightarrow> Inl e
      | Inr dec_view \<Rightarrow>
          (case stoi dec_view of
             Inl e \<Rightarrow> Inl e
           | Inr v \<Rightarrow>
               Inr (Node Constant (Some (''0x'' @ show_hex_int v))
                      (sub_expressions current_node))))"

section \<open>Emitter: the tree walk (ARM\_JIT\_Compiler::compile)\<close>

definition handle_const :: "Node \<Rightarrow> instruction_t list \<Rightarrow> error + instruction_t list" where
  "handle_const current instructions =
     Inr (instructions @
       [(LDR_FROM_NEXT, Some R0, None, content current),
        (WORD_DECL, None, None, content current),
        (PUSH_REG, Some R0, None, None)])"

definition handle_variable ::
  "Node \<Rightarrow> address_map \<Rightarrow> instruction_t list \<Rightarrow> error + instruction_t list" where
  "handle_variable current amap instructions =
     (case content current of
        None \<Rightarrow> Inl undefined_behaviour
      | Some name \<Rightarrow>
          (case amap name of
             None \<Rightarrow> Inl out_of_range
           | Some p \<Rightarrow>
               let address_str = show_pointer p in
               Inr (instructions @
                 [(LDR_FROM_NEXT, Some R0, None, Some address_str),
                  (WORD_DECL, None, None, Some address_str),
                  (LDR_REG, Some R0, Some R0, None),
                  (PUSH_REG, Some R0, None, None)])))"

text \<open>
  The loop of \<open>handle_function\<close>: \<open>for (int32_t i = arguments_number; i > 0; --i)\<close>
  appends \<open>POP_REG\<close> of the register with value \<open>i - 1\<close>.
\<close>

function pop_arguments :: "int \<Rightarrow> instruction_t list \<Rightarrow> instruction_t list" where
  "pop_arguments i instructions =
     (if 0 < i
      then pop_arguments (i - 1)
             (instructions @ [(POP_REG, Some (ARM_R (nat (i - 1))), None, None)])
      else instructions)"
  by pat_completeness auto
termination
  by (relation "measure (\<lambda>(i, instructions). nat i)") auto

declare pop_arguments.simps [simp del]

text \<open>
  \<open>compile_\<close> (here \<open>compile'\<close>: a name cannot end with an underscore, and the
  members \<open>address_map_\<close> and \<open>instructions_\<close> lose theirs too) and its handlers call
  each other; the instruction list is threaded through and an exception or a failed
  assertion ends the walk.  \<open>sub_expressions[0]\<close> and \<open>sub_expressions[1]\<close> of a node
  with fewer than two children are out of range.  \<open>for_each_compile\<close> is the
  \<open>std::for_each\<close> of \<open>handle_function\<close> over the arguments.
\<close>

function (sequential) compile' :: "Node \<Rightarrow> address_map \<Rightarrow> instruction_t list \<Rightarrow> error + instruction_t list"
  and handle_plus :: "Node \<Rightarrow> address_map \<Rightarrow> instruction_t list \<Rightarrow> error + instruction_t list"
  and handle_minus :: "Node \<Rightarrow> address_map \<Rightarrow> instruction_t list \<Rightarrow> error + instruction_t list"
  and handle_product :: "Node \<Rightarrow> address_map \<Rightarrow> instruction_t list \<Rightarrow> error + instruction_t list"
  and handle_function :: "Node \<Rightarrow> address_map \<Rightarrow> instruction_t list \<Rightarrow> error + instruction_t list"
  and for_each_compile ::
    "Node list \<Rightarrow> address_map \<Rightarrow> instruction_t list \<Rightarrow> error + instruction_t list"
where
  "compile' (Node Constant c subs) amap instructions =
     handle_const (Node Constant c subs) instructions"
| "compile' (Node Variable c subs) amap instructions =
     handle_variable (Node Variable c subs) amap instructions"
| "compile' (Node Plus' c subs) amap instructions =
     handle_plus (Node Plus' c subs) amap instructions"
| "compile' (Node Minus c subs) amap instructions =
     handle_minus (Node Minus c subs) amap instructions"
| "compile' (Node Product c subs) amap instructions =
     handle_product (Node Product c subs) amap instructions"
| "compile' (Node Function c subs) amap instructions =
     handle_function (Node Function c subs) amap instructions"
| "compile' (Node Default c subs) amap instructions = Inl assertion_failed"
| "handle_plus (Node ty c (l # r # rest)) amap instructions =
     (case compile' l amap instructions of
        Inl e \<Rightarrow> Inl e
      | Inr left_done \<Rightarrow>
          (case compile' r amap left_done of
             Inl e \<Rightarrow> Inl e
           | Inr right_done \<Rightarrow>
               Inr (right_done @
                 [(POP_MULT_REG, Some R0, Some R1, None),
                  (ADD, Some R0, Some R1, None),
                  (PUSH_REG, Some R0, None, None)])))"
| "handle_plus (Node ty c [l]) amap instructions =
     (case compile' l amap instructions of
        Inl e \<Rightarrow> Inl e
      | Inr left_done \<Rightarrow> Inl undefined_behaviour)"
| "handle_plus (Node ty c []) amap instructions = Inl undefined_behaviour"
| "handle_minus (Node ty c (l # r # rest)) amap instructions =
     (case compile' l amap instructions of
        Inl e \<Rightarrow> Inl e
      | Inr left_done \<Rightarrow>
          (case compile' r amap left_done of
             Inl e \<Rightarrow> Inl e
           | Inr right_done \<Rightarrow>
               Inr (right_done @
                 [(POP_MULT_REG, Some R0, Some R1, None),
                  (SUB, Some R0, Some R1, None),
                  (PUSH_REG, Some R0, None, None)])))"
| "handle_minus (Node ty c [l]) amap instructions =
     (case compile' l amap instructions of
        Inl e \<Rightarrow> Inl e
      | Inr left_done \<Rightarrow> Inl undefined_behaviour)"
| "handle_minus (Node ty c []) amap instructions = Inl undefined_behaviour"
| "handle_product (Node ty c (l # r # rest)) amap instructions =
     (case compile' l amap instructions of
        Inl e \<Rightarrow> Inl e
      | Inr left_done \<Rightarrow>
          (case compile' r amap left_done of
             Inl e \<Rightarrow> Inl e
           | Inr right_done \<Rightarrow>
               Inr (right_done @
                 [(POP_MULT_REG, Some R0, Some R1, None),
                  (MUL, Some R0, Some R1, None),
                  (PUSH_REG, Some R0, None, None)])))"
| "handle_product (Node ty c [l]) amap instructions =
     (case compile' l amap instructions of
        Inl e \<Rightarrow> Inl e
      | Inr left_done \<Rightarrow> Inl undefined_behaviour)"
| "handle_product (Node ty c []) amap instructions = Inl undefined_behaviour"
| "handle_function (Node ty c subs) amap instructions =
     (case for_each_compile subs amap instructions of
        Inl e \<Rightarrow> Inl e
      | Inr compiled \<Rightarrow>
          let arguments_number = length subs in
          if \<not> 0 < arguments_number then Inl assertion_failed
          else
            (case c of
               None \<Rightarrow> Inl undefined_behaviour
             | Some name \<Rightarrow>
                 (case amap name of
                    None \<Rightarrow> Inl out_of_range
                  | Some p \<Rightarrow>
                      let address_str = show_pointer p in
                      Inr (pop_arguments (sint (word_of_nat arguments_number :: 32 word))
                             compiled @
                           [(LDR_FROM_NEXT, Some R4, None, Some address_str),
                            (WORD_DECL, None, None, Some address_str),
                            (BLX, Some R4, None, None),
                            (PUSH_REG, Some R0, None, None)]))))"
| "for_each_compile [] amap instructions = Inr instructions"
| "for_each_compile (n # ns) amap instructions =
     (case compile' n amap instructions of
        Inl e \<Rightarrow> Inl e
      | Inr compiled \<Rightarrow> for_each_compile ns amap compiled)"
  by pat_completeness auto
termination
  by (relation "measure
        (case_sum
           (case_sum (\<lambda>p. 2 * size (fst p) + 1)
              (case_sum (\<lambda>p. 2 * size (fst p)) (\<lambda>p. 2 * size (fst p))))
           (case_sum (\<lambda>p. 2 * size (fst p))
              (case_sum (\<lambda>p. 2 * size (fst p)) (\<lambda>p. 2 * size_list size (fst p) + 1))))")
     auto

definition add_header :: "instruction_t list \<Rightarrow> instruction_t list" where
  "add_header instructions =
     instructions @ [(PUSH_REG, Some LR, None, None), (PUSH_REG, Some R4, None, None)]"

definition add_footer :: "instruction_t list \<Rightarrow> instruction_t list" where
  "add_footer instructions =
     instructions @ [(POP_REG, Some R0, None, None), (POP_MULT_REG, Some R4, Some PC, None)]"

definition compile :: "Node \<Rightarrow> address_map \<Rightarrow> instruction_t list \<Rightarrow> error + instruction_t list" where
  "compile parse_tree amap instructions =
     (case compile' parse_tree amap (add_header instructions) of
        Inl e \<Rightarrow> Inl e
      | Inr body \<Rightarrow> Inr (add_footer body))"

section \<open>Emitter: raw encodings (ARM\_JIT\_Compiler::GetCompiledBinary)\<close>

text \<open>
  \<open>reg1\<close> and \<open>reg2\<close>: the register's value cut to a \<open>uint8_t\<close>, or 0 without a
  register.
\<close>

definition reg_u8 :: "ARM_REGISTER option \<Rightarrow> 32 word" where
  "reg_u8 reg_o = (case reg_o of None \<Rightarrow> 0 | Some r \<Rightarrow> word_of_nat (reg_val r mod 256))"

text \<open>The words one instruction of the list adds to \<open>binary\<close>: one turn of the loop.\<close>

fun translate :: "instruction_t \<Rightarrow> error + 32 word list" where
  "translate (ADD, reg1_o, reg2_o, str) =
     Inr [0 OR push_bit 12 (reg_u8 reg1_o) OR push_bit 16 (reg_u8 reg2_o) OR push_bit 20 0
          OR push_bit 21 0x4 OR push_bit 28 0xe]"
| "translate (SUB, reg1_o, reg2_o, str) =
     Inr [0 OR push_bit 12 (reg_u8 reg1_o) OR push_bit 16 (reg_u8 reg2_o) OR push_bit 20 0
          OR push_bit 21 0x2 OR push_bit 28 0xe]"
| "translate (MUL, reg1_o, reg2_o, str) =
     Inr [0 OR reg_u8 reg2_o OR push_bit 4 0x9 OR push_bit 8 (reg_u8 reg1_o)
          OR push_bit 16 (reg_u8 reg1_o) OR push_bit 28 0xe]"
| "translate (BLX, reg1_o, reg2_o, str) =
     (if reg_u8 reg1_o = 4 then Inr [0xe12fff34] else Inl assertion_failed)"
| "translate (LDR_FROM_NEXT, reg1_o, reg2_o, str) =
     (case str of
        None \<Rightarrow> Inl undefined_behaviour
      | Some payload \<Rightarrow>
          (case stoul payload of
             Inl e \<Rightarrow> Inl e
           | Inr w \<Rightarrow>
               Inr [if reg_u8 reg1_o = 0 then 0xe59f0000 else 0xe59f4000, 0xea000000, w]))"
| "translate (LDR_REG, reg1_o, reg2_o, str) =
     (if reg_u8 reg1_o = 0 then Inr [0xe5900000]
      else if reg_u8 reg1_o = 4 then Inr [0xe5944000]
      else Inl assertion_failed)"
| "translate (PUSH_REG, reg1_o, reg2_o, str) =
     (if reg_u8 reg1_o = 0 then Inr [0xe52d0004]
      else if reg_u8 reg1_o = 1 then Inr [0xe52d1004]
      else if reg_u8 reg1_o = 2 then Inr [0xe52d2004]
      else if reg_u8 reg1_o = 3 then Inr [0xe52d3004]
      else if reg_u8 reg1_o = 4 then Inr [0xe52d4004]
      else if reg_u8 reg1_o = 5 then Inr [0xe52de004]
      else Inl assertion_failed)"
| "translate (PUSH_MULT_REG, reg1_o, reg2_o, str) =
     (if reg_u8 reg2_o = 0 then Inl assertion_failed
      else if reg_u8 reg2_o = 1 then Inr [0xe92d0003]
      else if reg_u8 reg2_o = 2 then Inr [0xe92d0007]
      else if reg_u8 reg2_o = 3 then Inr [0xe92d000f]
      else Inl assertion_failed)"
| "translate (WORD_DECL, reg1_o, reg2_o, str) = Inr []"
| "translate (POP_REG, reg1_o, reg2_o, str) =
     (if reg_u8 reg1_o = 0 then Inr [0xe49d0004]
      else if reg_u8 reg1_o = 1 then Inr [0xe49d1004]
      else if reg_u8 reg1_o = 2 then Inr [0xe49d2004]
      else if reg_u8 reg1_o = 3 then Inr [0xe49d3004]
      else if reg_u8 reg1_o = 4 then Inr [0xe49d4004]
      else Inl assertion_failed)"
| "translate (POP_MULT_REG, reg1_o, reg2_o, str) =
     (if reg_u8 reg2_o = 0 then Inl assertion_failed
      else if reg_u8 reg2_o = 1 then Inr [0xe8bd0003]
      else if reg_u8 reg2_o = 2 then Inr [0xe8bd0007]
      else if reg_u8 reg2_o = 3 then Inr [0xe8bd000f]
      else if reg_u8 reg2_o = 6 then
        (if reg_u8 reg1_o \<noteq> 4 then Inl assertion_failed else Inr [0xe8bd8010])
      else Inl assertion_failed)"

fun translate_all :: "instruction_t list \<Rightarrow> 32 word list \<Rightarrow> error + 32 word list" where
  "translate_all [] binary = Inr binary"
| "translate_all (instruction # rest) binary =
     (case translate instruction of
        Inl e \<Rightarrow> Inl e
      | Inr ws \<Rightarrow> translate_all rest (binary @ ws))"

definition GetCompiledBinary :: "instruction_t list \<Rightarrow> error + 32 word list" where
  "GetCompiledBinary instructions = translate_all instructions []"

text \<open>
  \<open>jit_compile_expression_to_arm\<close> once the tree is in the compiler: a compiler that
  holds no instruction yet runs \<open>compile\<close> and then \<open>GetCompiledBinary\<close>; the words are
  copied to the buffer in order.
\<close>

definition jit_compile_tree :: "Node \<Rightarrow> address_map \<Rightarrow> error + 32 word list" where
  "jit_compile_tree parse_tree amap =
     (case compile parse_tree amap [] of
        Inl e \<Rightarrow> Inl e
      | Inr instructions \<Rightarrow> GetCompiledBinary instructions)"

section \<open>The per-node table of the specification\<close>

text \<open>
  The table of the emission protocol, written from the specification's words: the
  sequence a node contributes, children first (post-order).  \<open>payload_of\<close> is the
  table's \<open>addr(V)\<close>: the directory's address of the name, as the text the emitter
  stores.  A function node with \<open>n\<close> arguments pops the registers with values
  \<open>n - 1\<close> down to 0.
\<close>

definition payload_of :: "address_map \<Rightarrow> string option \<Rightarrow> string option" where
  "payload_of amap name_o =
     (case name_o of
        None \<Rightarrow> None
      | Some name \<Rightarrow> (case amap name of None \<Rightarrow> None | Some p \<Rightarrow> Some (show_pointer p)))"

fun table_sequence :: "address_map \<Rightarrow> Node \<Rightarrow> instruction_t list" where
  "table_sequence amap (Node Constant c subs) =
     [(LDR_FROM_NEXT, Some R0, None, c), (WORD_DECL, None, None, c), (PUSH_REG, Some R0, None, None)]"
| "table_sequence amap (Node Variable v subs) =
     [(LDR_FROM_NEXT, Some R0, None, payload_of amap v), (WORD_DECL, None, None, payload_of amap v),
      (LDR_REG, Some R0, Some R0, None), (PUSH_REG, Some R0, None, None)]"
| "table_sequence amap (Node Plus' c [l, r]) =
     table_sequence amap l @ table_sequence amap r @
     [(POP_MULT_REG, Some R0, Some R1, None), (ADD, Some R0, Some R1, None),
      (PUSH_REG, Some R0, None, None)]"
| "table_sequence amap (Node Minus c [l, r]) =
     table_sequence amap l @ table_sequence amap r @
     [(POP_MULT_REG, Some R0, Some R1, None), (SUB, Some R0, Some R1, None),
      (PUSH_REG, Some R0, None, None)]"
| "table_sequence amap (Node Product c [l, r]) =
     table_sequence amap l @ table_sequence amap r @
     [(POP_MULT_REG, Some R0, Some R1, None), (MUL, Some R0, Some R1, None),
      (PUSH_REG, Some R0, None, None)]"
| "table_sequence amap (Node Function f args) =
     concat (map (table_sequence amap) args) @
     map (\<lambda>i. (POP_REG, Some (ARM_R i), None, None)) (rev [0..<length args]) @
     [(LDR_FROM_NEXT, Some R4, None, payload_of amap f), (WORD_DECL, None, None, payload_of amap f),
      (BLX, Some R4, None, None), (PUSH_REG, Some R0, None, None)]"
| "table_sequence amap (Node ty c subs) = []"

text \<open>
  The trees the table speaks about: a variable or function name is bound in the
  directory, an arithmetic node has its two children, a call has at least one argument
  (and no more than a vector of the 32-bit target can hold).
\<close>

fun emittable :: "address_map \<Rightarrow> Node \<Rightarrow> bool" where
  "emittable amap (Node Constant c subs) = True"
| "emittable amap (Node Variable v subs) = (payload_of amap v \<noteq> None)"
| "emittable amap (Node Function f args) =
     (args \<noteq> [] \<and> length args < 2 ^ 31 \<and> payload_of amap f \<noteq> None \<and>
      list_all (emittable amap) args)"
| "emittable amap (Node Default c subs) = False"
| "emittable amap (Node ty c [l, r]) = (emittable amap l \<and> emittable amap r)"
| "emittable amap (Node ty c subs) = False"

section \<open>Notions the properties are stated with\<close>

text \<open>
  The three arithmetic handlers differ in one instruction, and the work of
  \<open>handle_function\<close> after its arguments is the same for every call: the proofs treat
  them through \<open>handle_arith\<close> and \<open>call_function\<close>, which the lemmas \<open>handle_plus_arith\<close>,
  \<open>handle_minus_arith\<close>, \<open>handle_product_arith\<close> and \<open>handle_function_call\<close> show to be
  the handlers.
\<close>

definition call_tail :: "string \<Rightarrow> instruction_t list" where
  "call_tail address_str =
     [(LDR_FROM_NEXT, Some R4, None, Some address_str),
      (WORD_DECL, None, None, Some address_str),
      (BLX, Some R4, None, None),
      (PUSH_REG, Some R0, None, None)]"

definition arith_tail :: "ARM_INSTRUCTION \<Rightarrow> instruction_t list" where
  "arith_tail op =
     [(POP_MULT_REG, Some R0, Some R1, None),
      (op, Some R0, Some R1, None),
      (PUSH_REG, Some R0, None, None)]"

definition call_function ::
  "Node \<Rightarrow> address_map \<Rightarrow> instruction_t list \<Rightarrow> error + instruction_t list" where
  "call_function current amap compiled =
     (let arguments_number = length (sub_expressions current) in
      if \<not> 0 < arguments_number then Inl assertion_failed
      else
        (case content current of
           None \<Rightarrow> Inl undefined_behaviour
         | Some name \<Rightarrow>
             (case amap name of
                None \<Rightarrow> Inl out_of_range
              | Some p \<Rightarrow>
                  Inr (pop_arguments (sint (word_of_nat arguments_number :: 32 word)) compiled
                       @ call_tail (show_pointer p)))))"

definition handle_arith ::
  "ARM_INSTRUCTION \<Rightarrow> Node list \<Rightarrow> address_map \<Rightarrow> instruction_t list \<Rightarrow>
   error + instruction_t list" where
  "handle_arith op subs amap instructions =
     (case subs of
        [] \<Rightarrow> Inl undefined_behaviour
      | l # others \<Rightarrow>
          (case compile' l amap instructions of
             Inl e \<Rightarrow> Inl e
           | Inr left_done \<Rightarrow>
               (case others of
                  [] \<Rightarrow> Inl undefined_behaviour
                | r # rest \<Rightarrow>
                    (case compile' r amap left_done of
                       Inl e \<Rightarrow> Inl e
                     | Inr right_done \<Rightarrow> Inr (right_done @ arith_tail op)))))"

text \<open>
  The text of a leaf, and the value of the decimal literal it begins with.
\<close>

definition leaf_text :: "string \<Rightarrow> nat \<Rightarrow> nat \<Rightarrow> string" where
  "leaf_text expression left right = take (right - left) (drop left expression)"

definition literal_value :: "string \<Rightarrow> nat" where
  "literal_value leaf = digits_value 10 (takeWhile (is_digit_in 10) leaf)"




section \<open>The A32 machine the words run on\<close>

text \<open>
  The state of the processor: the sixteen registers (13 is SP, 14 is LR, 15 is PC, the
  address of the instruction being executed) and the memory.  The memory is read and
  written in aligned 32-bit words only, so a cell of the model is the word at an address
  that is a multiple of four, and the byte order inside a word plays no part: the
  emitter stores whole words and the processor fetches whole words.  An access to an
  address that is not aligned stops the machine.
\<close>

record machine =
  regs :: "nat \<Rightarrow> 32 word"
  mem :: "32 word \<Rightarrow> 32 word"

text \<open>
  A function of the directory is not code of the model: a call runs it in one step.
  \<open>arity\<close> is the number of its parameters, \<open>result\<close> the value it returns for their
  values, \<open>effect\<close> what the call does to the machine.
\<close>

record callee =
  arity :: nat
  result :: "32 word list \<Rightarrow> 32 word"
  effect :: "machine \<Rightarrow> machine"

text \<open>
  The instructions the emitter uses, in their A1 encodings of the ARM Architecture
  Reference Manual, decoded from the fields of the word: ADD and SUB (register, no
  shift), MUL, LDR and STR (immediate offset, with the P, U and W bits), LDMIA with
  write-back, B and BLX (register).  The condition must be AL; every other word stops
  the machine.
\<close>

datatype instr =
  ADD_reg nat nat nat
  | SUB_reg nat nat nat
  | MUL_reg nat nat nat
  | LDR_imm bool bool bool nat nat nat
  | STR_imm bool bool bool nat nat nat
  | LDMIA_wb nat "nat list"
  | B_imm "32 word"
  | BLX_reg nat

definition bits :: "32 word \<Rightarrow> nat \<Rightarrow> nat \<Rightarrow> nat" where
  "bits w hi lo = unat (take_bit (Suc hi - lo) (drop_bit lo w))"

definition decode :: "32 word \<Rightarrow> instr option" where
  "decode w =
     (if bits w 31 28 \<noteq> 14 then None
      else if bits w 27 4 = 0x12FFF3 then Some (BLX_reg (bits w 3 0))
      else if bits w 27 24 = 10 then
        Some (B_imm (push_bit 2 (signed_take_bit 23 (take_bit 24 w))))
      else if bits w 27 20 = 0x8B then
        Some (LDMIA_wb (bits w 19 16) (filter (\<lambda>i. bit w i) [0..<16]))
      else if bits w 27 25 = 2 \<and> bits w 22 22 = 0 then
        Some ((if bit w 20 then LDR_imm else STR_imm) (bit w 24) (bit w 23) (bit w 21)
                (bits w 19 16) (bits w 15 12) (bits w 11 0))
      else if bits w 27 20 = 0 \<and> bits w 15 12 = 0 \<and> bits w 7 4 = 9 then
        Some (MUL_reg (bits w 19 16) (bits w 3 0) (bits w 11 8))
      else if bits w 27 20 = 0x08 \<and> bits w 11 4 = 0 then
        Some (ADD_reg (bits w 15 12) (bits w 19 16) (bits w 3 0))
      else if bits w 27 20 = 0x04 \<and> bits w 11 4 = 0 then
        Some (SUB_reg (bits w 15 12) (bits w 19 16) (bits w 3 0))
      else None)"

text \<open>
  Execution.  Register 15 read as an operand is the address of the instruction plus 8.
  An LDMIA loads the listed registers from ascending addresses; with the PC in the
  list it branches to the loaded address.  BLX stores the return address in LR.
\<close>

definition aligned :: "32 word \<Rightarrow> bool" where
  "aligned a = (4 dvd unat a)"

definition reg_read :: "machine \<Rightarrow> nat \<Rightarrow> 32 word" where
  "reg_read s r = (if r = 15 then regs s 15 + 8 else regs s r)"

definition set_reg :: "nat \<Rightarrow> 32 word \<Rightarrow> machine \<Rightarrow> machine" where
  "set_reg r v s = s\<lparr>regs := (regs s)(r := v)\<rparr>"

definition advance :: "machine \<Rightarrow> machine" where
  "advance s = set_reg 15 (regs s 15 + 4) s"

fun load_multiple :: "nat list \<Rightarrow> 32 word \<Rightarrow> machine \<Rightarrow> machine" where
  "load_multiple [] a s = s"
| "load_multiple (r # rs) a s = load_multiple rs (a + 4) (set_reg r (mem s a) s)"

fun exec :: "instr \<Rightarrow> machine \<Rightarrow> machine option" where
  "exec (ADD_reg rd rn rm) s =
     (if rd = 15 then None
      else Some (advance (set_reg rd (reg_read s rn + reg_read s rm) s)))"
| "exec (SUB_reg rd rn rm) s =
     (if rd = 15 then None
      else Some (advance (set_reg rd (reg_read s rn - reg_read s rm) s)))"
| "exec (MUL_reg rd rm rs) s =
     (if rd = 15 \<or> rm = 15 \<or> rs = 15 then None
      else Some (advance (set_reg rd (regs s rm * regs s rs) s)))"
| "exec (LDR_imm p u w rn rt imm) s =
     (let base = reg_read s rn;
          offset_addr = (if u then base + word_of_nat imm else base - word_of_nat imm);
          address = (if p then offset_addr else base);
          writeback = (w \<or> \<not> p)
      in if rt = 15 \<or> (\<not> p \<and> w) \<or> (writeback \<and> (rn = 15 \<or> rn = rt)) \<or> \<not> aligned address
         then None
         else Some (advance
                (if writeback then set_reg rn offset_addr (set_reg rt (mem s address) s)
                 else set_reg rt (mem s address) s)))"
| "exec (STR_imm p u w rn rt imm) s =
     (let base = reg_read s rn;
          offset_addr = (if u then base + word_of_nat imm else base - word_of_nat imm);
          address = (if p then offset_addr else base);
          writeback = (w \<or> \<not> p);
          stored = s\<lparr>mem := (mem s)(address := regs s rt)\<rparr>
      in if rt = 15 \<or> (\<not> p \<and> w) \<or> (writeback \<and> (rn = 15 \<or> rn = rt)) \<or> \<not> aligned address
         then None
         else Some (advance (if writeback then set_reg rn offset_addr stored else stored)))"
| "exec (LDMIA_wb rn rs) s =
     (if rn = 15 \<or> rn \<in> set rs \<or> rs = [] \<or> \<not> aligned (regs s rn) then None
      else
        let loaded = set_reg rn (regs s rn + 4 * word_of_nat (length rs))
                       (load_multiple rs (regs s rn) s)
        in Some (if 15 \<in> set rs then loaded else advance loaded))"
| "exec (B_imm off) s = Some (set_reg 15 (regs s 15 + 8 + off) s)"
| "exec (BLX_reg rm) s =
     (if rm = 15 then None
      else Some (set_reg 15 (regs s rm) (set_reg 14 (regs s 15 + 4) s)))"

text \<open>
  One step: when the PC is the entry point of a function of the directory the whole
  call happens, otherwise the word at the PC is fetched, decoded and executed.
  \<open>run fs k\<close> makes \<open>k\<close> steps; \<open>None\<close> means the machine stopped on the way.
\<close>

definition step :: "(32 word \<rightharpoonup> callee) \<Rightarrow> machine \<Rightarrow> machine option" where
  "step fs s =
     (case fs (regs s 15) of
        Some c \<Rightarrow> Some (effect c s)
      | None \<Rightarrow>
          if \<not> aligned (regs s 15) then None
          else (case decode (mem s (regs s 15)) of None \<Rightarrow> None | Some i \<Rightarrow> exec i s))"

fun run :: "(32 word \<rightharpoonup> callee) \<Rightarrow> nat \<Rightarrow> machine \<Rightarrow> machine option" where
  "run fs 0 s = Some s"
| "run fs (Suc n) s = (case step fs s of None \<Rightarrow> None | Some s' \<Rightarrow> run fs n s')"


text \<open>
  The free part of the stack, below the stack pointer \<open>sp\<close> and down to the limit \<open>L\<close>;
  \<open>same_outside\<close>: two memories that differ there at most.  \<open>code_loaded\<close>: the words
  \<open>ws\<close> are in memory from the aligned address \<open>a\<close> on, outside the free stack at the
  start (\<open>sp0\<close>), and none of their addresses is the entry point of a function.
\<close>

definition in_stack :: "nat \<Rightarrow> 32 word \<Rightarrow> 32 word \<Rightarrow> bool" where
  "in_stack L sp x = (L \<le> unat x \<and> unat x < unat sp)"

definition same_outside :: "nat \<Rightarrow> 32 word \<Rightarrow> (32 word \<Rightarrow> 32 word) \<Rightarrow> (32 word \<Rightarrow> 32 word) \<Rightarrow> bool" where
  "same_outside L sp m m' = (\<forall>x. \<not> in_stack L sp x \<longrightarrow> m' x = m x)"


section \<open>The value of an expression\<close>






text \<open>
  What a call returns: the result of the first \<open>arity\<close> register arguments is in R0, the
  stack pointer is the same, control is at the return address that was in LR, and
  memory has changed in the free stack at most.
\<close>

definition returns_result :: "nat \<Rightarrow> callee \<Rightarrow> machine \<Rightarrow> bool" where
  "returns_result L c s =
     (regs (effect c s) 0 = result c (map (regs s) [0..<arity c]) \<and>
      regs (effect c s) 13 = regs s 13 \<and>
      regs (effect c s) 15 = regs s 14 \<and>
      same_outside L (regs s 13) (mem s) (mem (effect c s)))"

text \<open>
  The procedure-call standard (AAPCS) promises this of a function that is entered as
  the standard prescribes: at a public interface the stack pointer is a multiple of
  eight (\<open>SP mod 8 = 0\<close>), and here with at least \<open>room\<close> bytes of free stack.  Of an
  entry with a stack pointer that is only a multiple of four the standard promises
  nothing.
\<close>

definition aligned8 :: "32 word \<Rightarrow> bool" where
  "aligned8 a = (8 dvd unat a)"

definition follows_aapcs :: "nat \<Rightarrow> nat \<Rightarrow> callee \<Rightarrow> bool" where
  "follows_aapcs L room c =
     (\<forall>s. aligned8 (regs s 13) \<and> L + room \<le> unat (regs s 13) \<longrightarrow> returns_result L c s)"

text \<open>
  A stronger property than the standard's, which not every conforming function has:
  the function returns its result also when it is entered with a stack pointer that
  is a multiple of four only.  The emitted code does enter functions so: a call is
  made with every operand that is still pending on the stack, one word each, and the
  call pops its own arguments only.
\<close>

definition alignment_tolerant :: "nat \<Rightarrow> nat \<Rightarrow> callee \<Rightarrow> bool" where
  "alignment_tolerant L room c =
     (\<forall>s. aligned (regs s 13) \<and> L + room \<le> unat (regs s 13) \<longrightarrow> returns_result L c s)"














definition strict_id :: callee where
  "strict_id =
     \<lparr>arity = 1, result = (\<lambda>args. args ! 0),
      effect = (\<lambda>s. s\<lparr>regs := (regs s)
                  (0 := (if aligned8 (regs s 13) then regs s 0 else 0xDEAD),
                   15 := regs s 14)\<rparr>)\<rparr>"



section \<open>The handlers, uniformly\<close>

lemma handle_arith_simps [simp]:
  "handle_arith op (l # r # rest) amap instructions =
     (case compile' l amap instructions of
        Inl e \<Rightarrow> Inl e
      | Inr left_done \<Rightarrow>
          (case compile' r amap left_done of
             Inl e \<Rightarrow> Inl e
           | Inr right_done \<Rightarrow> Inr (right_done @ arith_tail op)))"
  "handle_arith op [l] amap instructions =
     (case compile' l amap instructions of
        Inl e \<Rightarrow> Inl e
      | Inr left_done \<Rightarrow> Inl undefined_behaviour)"
  "handle_arith op [] amap instructions = Inl undefined_behaviour"
  by (simp_all add: handle_arith_def split: sum.splits)

lemma handle_plus_arith [simp]:
  "handle_plus (Node ty c subs) amap instructions = handle_arith ADD subs amap instructions"
proof (cases subs)
  case Nil
  then show ?thesis by simp
next
  case (Cons l others)
  then show ?thesis by (cases others) (simp_all add: arith_tail_def split: sum.splits)
qed

lemma handle_minus_arith [simp]:
  "handle_minus (Node ty c subs) amap instructions = handle_arith SUB subs amap instructions"
proof (cases subs)
  case Nil
  then show ?thesis by simp
next
  case (Cons l others)
  then show ?thesis by (cases others) (simp_all add: arith_tail_def split: sum.splits)
qed

lemma handle_product_arith [simp]:
  "handle_product (Node ty c subs) amap instructions = handle_arith MUL subs amap instructions"
proof (cases subs)
  case Nil
  then show ?thesis by simp
next
  case (Cons l others)
  then show ?thesis by (cases others) (simp_all add: arith_tail_def split: sum.splits)
qed

lemma handle_function_call [simp]:
  "handle_function (Node ty c subs) amap instructions =
     (case for_each_compile subs amap instructions of
        Inl e \<Rightarrow> Inl e
      | Inr compiled \<Rightarrow> call_function (Node ty c subs) amap compiled)"
  by (simp add: call_function_def call_tail_def Let_def split: sum.splits option.splits)

declare handle_plus.simps [simp del] handle_minus.simps [simp del]
  handle_product.simps [simp del] handle_function.simps [simp del]

section \<open>The tree walk appends the table's sequences\<close>

lemma pop_arguments_nat:
  "pop_arguments (int n) ins =
     ins @ map (\<lambda>i. (POP_REG, Some (ARM_R i), None, None)) (rev [0..<n])"
proof (induction n arbitrary: ins)
  case 0
  show ?case by (simp add: pop_arguments.simps)
next
  case (Suc n)
  have "pop_arguments (int (Suc n)) ins =
        pop_arguments (int n) (ins @ [(POP_REG, Some (ARM_R n), None, None)])"
    by (subst pop_arguments.simps) simp
  then show ?case by (simp add: Suc)
qed

lemma sint_arguments_number: "n < 2 ^ 31 \<Longrightarrow> sint (word_of_nat n :: 32 word) = int n"
proof -
  assume n: "n < 2 ^ 31"
  have "sint (word_of_nat n :: 32 word) = signed_take_bit 31 (int n)"
    by (simp add: signed_of_nat)
  also have "\<dots> = int n"
    by (rule signed_take_bit_int_eq_self) (use n in simp_all)
  finally show ?thesis .
qed

lemma for_each_compile_table:
  assumes "\<And>a ins. a \<in> set args \<Longrightarrow> compile' a amap ins = Inr (ins @ f a)"
  shows "for_each_compile args amap ins = Inr (ins @ concat (map f args))"
  using assms by (induction args arbitrary: ins) simp_all

lemma emittable_arith:
  assumes "ty = Plus' \<or> ty = Minus \<or> ty = Product"
  shows "emittable amap (Node ty c subs) \<longleftrightarrow>
         (\<exists>l r. subs = [l, r] \<and> emittable amap l \<and> emittable amap r)"
proof (cases subs)
  case Nil
  with assms show ?thesis by auto
next
  case (Cons a as)
  show ?thesis
  proof (cases as)
    case Nil
    with Cons assms show ?thesis by auto
  next
    case (Cons b bs)
    with \<open>subs = a # as\<close> assms show ?thesis by (cases bs) auto
  qed
qed

lemma compile_emittable:
  "emittable amap n \<Longrightarrow> compile' n amap ins = Inr (ins @ table_sequence amap n)"
proof (induction n arbitrary: ins)
  case (Node ty c subs)
  show ?case
  proof (cases ty)
    case Constant
    then show ?thesis by (simp add: handle_const_def)
  next
    case Variable
    with Node.prems show ?thesis
      by (auto simp: handle_variable_def payload_of_def Let_def split: option.splits)
  next
    case Function
    with Node.prems have args: "subs \<noteq> []" "length subs < 2 ^ 31" "payload_of amap c \<noteq> None"
      "list_all (emittable amap) subs" by simp_all
    have "for_each_compile subs amap ins = Inr (ins @ concat (map (table_sequence amap) subs))"
      using Node.IH args(4) by (intro for_each_compile_table) (simp add: list_all_iff)
    with args Function show ?thesis
      by (auto simp: call_function_def call_tail_def payload_of_def sint_arguments_number
            pop_arguments_nat split: option.splits)
  next
    case Default
    with Node.prems show ?thesis by simp
  next
    case Plus'
    with Node.prems obtain l r where lr: "subs = [l, r]" "emittable amap l" "emittable amap r"
      by (auto simp: emittable_arith)
    with Node.IH Plus' show ?thesis by (simp add: arith_tail_def)
  next
    case Minus
    with Node.prems obtain l r where lr: "subs = [l, r]" "emittable amap l" "emittable amap r"
      by (auto simp: emittable_arith)
    with Node.IH Minus show ?thesis by (simp add: arith_tail_def)
  next
    case Product
    with Node.prems obtain l r where lr: "subs = [l, r]" "emittable amap l" "emittable amap r"
      by (auto simp: emittable_arith)
    with Node.IH Product show ?thesis by (simp add: arith_tail_def)
  qed
qed

section \<open>Printing and reading numbers\<close>

lemma digit_value_hex_char: "d < 16 \<Longrightarrow> digit_value (hex_char d) = Some d"
proof -
  assume "d < 16"
  have "list_all (\<lambda>d. digit_value (hex_char d) = Some d) [0..<16]"
    by (simp add: upt_rec hex_char_def digit_value_def)
  with \<open>d < 16\<close> show ?thesis by (simp add: list_all_iff)
qed

lemma digits_value_snoc:
  "digit_value c = Some d \<Longrightarrow> digits_value b (ds @ [c]) = digits_value b ds * b + d"
  by (simp add: digits_value_def)

lemma hex_digits_value: "digits_value 16 (hex_digits n) = n"
proof (induction n rule: hex_digits.induct)
  case (1 n)
  show ?case
  proof (cases "n < 16")
    case True
    then show ?thesis
      using digits_value_snoc [of "hex_char n" n 16 "[]"]
      by (simp add: hex_digits.simps [of n] digit_value_hex_char digits_value_def)
  next
    case False
    have "digit_value (hex_char (n mod 16)) = Some (n mod 16)"
      by (rule digit_value_hex_char) simp
    then have "digits_value 16 (hex_digits (n div 16) @ [hex_char (n mod 16)]) =
               digits_value 16 (hex_digits (n div 16)) * 16 + n mod 16"
      by (rule digits_value_snoc)
    with False "1.IH" show ?thesis
      by (simp add: hex_digits.simps [of n])
  qed
qed

lemma hex_digits_are_digits: "c \<in> set (hex_digits n) \<Longrightarrow> is_digit_in 16 c"
proof (induction n rule: hex_digits.induct)
  case (1 n)
  have d: "is_digit_in 16 (hex_char k)" if "k < 16" for k
    using that by (simp add: is_digit_in_def digit_value_hex_char)
  show ?case
  proof (cases "n < 16")
    case True
    with "1.prems" d show ?thesis by (simp add: hex_digits.simps [of n])
  next
    case False
    with "1.prems" have "c \<in> set (hex_digits (n div 16)) \<or> c = hex_char (n mod 16)"
      by (auto simp: hex_digits.simps [of n])
    with False "1.IH" d [of "n mod 16"] show ?thesis by auto
  qed
qed

lemma hex_digits_nonempty: "hex_digits n \<noteq> []"
  by (subst hex_digits.simps) simp

lemma stoul_hex:
  assumes "ds \<noteq> []" "\<forall>c \<in> set ds. is_digit_in 16 c" "digits_value 16 ds < 2 ^ 32"
  shows "stoul (''0x'' @ ds) = Inr (word_of_nat (digits_value 16 ds))"
proof -
  from assms(1) obtain d r where ds: "ds = d # r" by (cases ds) auto
  with assms(2) have d: "is_digit_in 16 d" by simp
  have tw: "takeWhile (is_digit_in 16) ds = ds"
    using assms(2) by (simp add: takeWhile_eq_all_conv)
  have "stoul_base (''0x'' @ ds) = (16, ds)"
    using d by (simp add: stoul_base_def ds)
  then show ?thesis
    using assms(1,3)
    by (simp add: stoul_def isspace_def strip_sign_def tw Let_def)
qed


lemma is_digit_in_10_iff:
  "is_digit_in 10 c \<longleftrightarrow> 48 \<le> (of_char c :: nat) \<and> (of_char c :: nat) \<le> 57"
  by (auto simp: is_digit_in_def digit_value_def Let_def)

lemma stoi_leading_digit:
  assumes "is_digit_in 10 c"
  shows "stoi (c # r) =
     (if 2 ^ 31 - 1 < literal_value (c # r) then Inl out_of_range
      else Inr (int (literal_value (c # r))))"
proof -
  from assms have rng: "48 \<le> (of_char c :: nat)" "(of_char c :: nat) \<le> 57"
    by (simp_all add: is_digit_in_10_iff)
  then have nospace: "\<not> isspace c" and nosign: "c \<noteq> CHR ''-''" "c \<noteq> CHR ''+''"
    by (auto simp: isspace_def)
  have ne: "takeWhile (is_digit_in 10) (c # r) \<noteq> []"
    using assms by simp
  have "dropWhile isspace (c # r) = c # r" using nospace by simp
  moreover have "strip_sign (c # r) = (False, c # r)"
    using nosign by (simp add: strip_sign_def)
  ultimately show ?thesis
    using ne by (simp add: stoi_def literal_value_def Let_def del: takeWhile.simps)
qed

lemma leaf_text_Cons:
  assumes "left < right" "right \<le> length expression"
  shows "leaf_text expression left right =
         expression ! left # take (right - left - 1) (drop (Suc left) expression)"
proof -
  from assms have "left < length expression" by simp
  then have "drop left expression = expression ! left # drop (Suc left) expression"
    by (rule Cons_nth_drop_Suc [symmetric])
  moreover from assms obtain k where "right - left = Suc k" by (cases "right - left") auto
  ultimately show ?thesis by (simp add: leaf_text_def)
qed

section \<open>The instruction list only grows\<close>

lemma pop_arguments_extends: "\<exists>b. pop_arguments i ins = ins @ b"
proof (cases "0 < i")
  case True
  then have "pop_arguments i ins = pop_arguments (int (nat i)) ins" by simp
  then show ?thesis by (simp only: pop_arguments_nat) blast
next
  case False
  then show ?thesis by (simp add: pop_arguments.simps)
qed

lemma call_function_extends: "call_function n amap ins = Inr r \<Longrightarrow> \<exists>b. r = ins @ b"
  using pop_arguments_extends [of "sint (word_of_nat (length (sub_expressions n)) :: 32 word)" ins]
  by (auto simp: call_function_def Let_def split: if_splits option.splits)

lemma for_each_compile_extends_if:
  assumes "\<And>n ins r. n \<in> set ns \<Longrightarrow> compile' n amap ins = Inr r \<Longrightarrow> \<exists>b. r = ins @ b"
    and "for_each_compile ns amap ins = Inr r"
  shows "\<exists>b. r = ins @ b"
  using assms
proof (induction ns arbitrary: ins)
  case Nil
  then show ?case by simp
next
  case (Cons n ns)
  from Cons.prems(2) obtain compiled where
    c: "compile' n amap ins = Inr compiled" and r: "for_each_compile ns amap compiled = Inr r"
    by (auto split: sum.splits)
  from Cons.prems(1) [of n ins compiled] c obtain b where "compiled = ins @ b" by auto
  moreover have "\<exists>b'. r = compiled @ b'"
  proof (rule Cons.IH [OF _ r])
    fix n' ins' r'
    assume "n' \<in> set ns" "compile' n' amap ins' = Inr r'"
    then show "\<exists>b. r' = ins' @ b" using Cons.prems(1) [of n' ins' r'] by simp
  qed
  ultimately show ?case by auto
qed

lemma compile_extends: "compile' n amap ins = Inr r \<Longrightarrow> \<exists>b. r = ins @ b"
proof (induction n arbitrary: ins r)
  case (Node ty c subs)
  have arith: "\<exists>b. r = ins @ b" if "handle_arith op subs amap ins = Inr r" for op
  proof (cases subs)
    case Nil
    with that show ?thesis by simp
  next
    case (Cons l others)
    show ?thesis
    proof (cases others)
      case Nil
      with that Cons show ?thesis by (simp split: sum.splits)
    next
      case (Cons r' rest)
      with that \<open>subs = l # others\<close> obtain left_done right_done where
        l: "compile' l amap ins = Inr left_done"
        and rr: "compile' r' amap left_done = Inr right_done"
        and r: "r = right_done @ arith_tail op"
        by (auto split: sum.splits)
      from Node.IH [of l, OF _ l] Cons \<open>subs = l # others\<close>
      obtain b where "left_done = ins @ b" by auto
      moreover from Node.IH [of r', OF _ rr] Cons \<open>subs = l # others\<close>
      obtain b' where "right_done = left_done @ b'" by auto
      ultimately show ?thesis using r by simp
    qed
  qed
  show ?case
  proof (cases ty)
    case Constant
    with Node.prems show ?thesis by (auto simp: handle_const_def)
  next
    case Variable
    with Node.prems show ?thesis
      by (auto simp: handle_variable_def Let_def split: option.splits)
  next
    case Function
    with Node.prems obtain compiled where
      c: "for_each_compile subs amap ins = Inr compiled"
      and r: "call_function (Node Function c subs) amap compiled = Inr r"
      by (auto split: sum.splits)
    have "\<exists>b. compiled = ins @ b"
      using Node.IH c by (rule for_each_compile_extends_if)
    then obtain b where "compiled = ins @ b" by blast
    moreover from call_function_extends [OF r] obtain b' where "r = compiled @ b'" by blast
    ultimately show ?thesis by simp
  next
    case Default
    with Node.prems show ?thesis by simp
  qed (use Node.prems arith in auto)
qed


lemma translate_all_append:
  "translate_all (xs @ ys) acc =
     (case translate_all xs acc of Inl e \<Rightarrow> Inl e | Inr acc' \<Rightarrow> translate_all ys acc')"
  by (induction xs arbitrary: acc) (auto split: sum.splits)

lemma translate_all_extends: "translate_all xs acc = Inr r \<Longrightarrow> \<exists>ws. r = acc @ ws"
proof (induction xs arbitrary: acc)
  case Nil
  then show ?case by simp
next
  case (Cons x xs)
  then show ?case by (fastforce split: sum.splits)
qed

section \<open>Calls and the register table\<close>








section \<open>Single instructions\<close>


lemma decode_push [simp]:
  "decode 0xE52D0004 = Some (STR_imm True False True 13 0 4)"
  "decode 0xE52D4004 = Some (STR_imm True False True 13 4 4)"
  "decode 0xE52DE004 = Some (STR_imm True False True 13 14 4)"
  by (simp_all add: decode_def bits_def)

lemma decode_pop [simp]:
  "decode 0xE49D0004 = Some (LDR_imm False True False 13 0 4)"
  "decode 0xE49D1004 = Some (LDR_imm False True False 13 1 4)"
  "decode 0xE49D2004 = Some (LDR_imm False True False 13 2 4)"
  "decode 0xE49D3004 = Some (LDR_imm False True False 13 3 4)"
  by (simp_all add: decode_def bits_def)

lemma decode_ldr [simp]:
  "decode 0xE59F0000 = Some (LDR_imm True True False 15 0 0)"
  "decode 0xE59F4000 = Some (LDR_imm True True False 15 4 0)"
  "decode 0xE5900000 = Some (LDR_imm True True False 0 0 0)"
  by (simp_all add: decode_def bits_def)

lemma decode_branch [simp]:
  "decode 0xEA000000 = Some (B_imm 0)"
  "decode 0xE12FFF34 = Some (BLX_reg 4)"
  by (simp_all add: decode_def bits_def)

lemma decode_arith [simp]:
  "decode 0xE0810000 = Some (ADD_reg 0 1 0)"
  "decode 0xE0410000 = Some (SUB_reg 0 1 0)"
  "decode 0xE0000091 = Some (MUL_reg 0 1 0)"
  by (simp_all add: decode_def bits_def)

lemma decode_pop_multiple [simp]:
  "decode 0xE8BD0003 = Some (LDMIA_wb 13 [0, 1])"
  "decode 0xE8BD8010 = Some (LDMIA_wb 13 [4, 15])"
  by (simp_all add: decode_def bits_def upt_rec)


lemma run_step:
  "step fs s = Some s1 \<Longrightarrow> run fs n s1 = Some s' \<Longrightarrow> run fs (Suc n) s = Some s'"
  by simp


lemma aligned_add4 [simp]: "aligned (a + 4) \<longleftrightarrow> aligned a"
proof -
  have "unat (a + 4) = (unat a + 4) mod 2 ^ 32"
    by (simp add: unat_word_ariths)
  moreover have "(4::nat) dvd 2 ^ 32" by simp
  ultimately have "4 dvd unat (a + 4) \<longleftrightarrow> 4 dvd (unat a + 4)"
    by (simp add: dvd_mod_iff)
  then show ?thesis by (simp add: aligned_def)
qed

lemma aligned_sub4 [simp]: "aligned (a - 4) \<longleftrightarrow> aligned a"
  using aligned_add4 [of "a - 4"] by simp

lemma aligned_add8 [simp]: "aligned (a + 8) \<longleftrightarrow> aligned a"
  using aligned_add4 [of "a + 4"] by (simp add: add.assoc)



lemma same_outside_refl [simp]: "same_outside L sp m m"
  by (simp add: same_outside_def)


lemma same_outside_mono:
  "same_outside L p1 m m' \<Longrightarrow> unat p1 \<le> unat p \<Longrightarrow> same_outside L p m m'"
  by (auto simp: same_outside_def in_stack_def)


lemma unat_sub4: "4 \<le> unat p \<Longrightarrow> unat (p - 4) = unat p - 4"
  for p :: "32 word"
  by (simp add: unat_sub word_le_nat_alt)

lemma in_stack_push:
  "L + 4 \<le> unat p \<Longrightarrow> unat p \<le> unat sp0 \<Longrightarrow> in_stack L sp0 (p - 4) \<and> in_stack L p (p - 4)"
  by (auto simp: in_stack_def unat_sub4)














section \<open>Blocks of instructions\<close>











section \<open>The words of a well-formed tree\<close>







section \<open>The code of a tree pushes its value\<close>








lemma aligned_sub8 [simp]: "aligned (a - 8) \<longleftrightarrow> aligned a"
  using aligned_add8 [of "a - 8"] by simp

lemma aligned_sub12 [simp]: "aligned (a - 12) \<longleftrightarrow> aligned a"
  using aligned_sub4 [of "a - 8"] by simp












section \<open>Functions that rely on the stack alignment of the standard\<close>

text \<open>
  Every function that returns its result at every word-aligned stack pointer follows
  the standard; \<open>strict_id\<close> follows the standard and is not such a function.
\<close>

lemma aligned8_aligned: "aligned8 a \<Longrightarrow> aligned a"
  unfolding aligned8_def aligned_def by (rule dvd_trans [of 4 8]) simp_all

lemma alignment_tolerant_follows_aapcs:
  "alignment_tolerant L room c \<Longrightarrow> follows_aapcs L room c"
  unfolding alignment_tolerant_def follows_aapcs_def
  by (blast intro: aligned8_aligned)


lemma strict_id_not_tolerant: "\<not> alignment_tolerant 0x7000 0 strict_id"
proof
  assume a: "alignment_tolerant 0x7000 0 strict_id"
  let ?s = "\<lparr>regs = (\<lambda>r. 0)(13 := 0x70F4), mem = (\<lambda>x. 0)\<rparr> :: machine"
  from a have "returns_result 0x7000 strict_id ?s"
    unfolding alignment_tolerant_def by (simp add: aligned_def)
  then show False
    by (simp add: returns_result_def strict_id_def aligned8_def upt_rec)
qed











section \<open>The per-node emission protocol\<close>

text \<open>
  C2.  For every node of a tree whose names are bound, the walk appends exactly the
  sequence of the per-node table, its children's sequences first: a constant
  \<open>LDR_FROM_NEXT R0\<close>, \<open>WORD_DECL\<close>, \<open>PUSH_REG R0\<close>; a variable the same around its
  address and an \<open>LDR_REG R0\<close>; an arithmetic node \<open>POP_MULT_REG R0, R1\<close>, the
  operation and \<open>PUSH_REG R0\<close>; a call the \<open>POP_REG\<close>s from the last argument's
  register down to \<open>R0\<close>, then \<open>LDR_FROM_NEXT R4\<close>, \<open>WORD_DECL\<close>, \<open>BLX R4\<close>,
  \<open>PUSH_REG R0\<close>.
\<close>

theorem compile_table:
  "emittable amap n \<Longrightarrow> compile' n amap ins = Inr (ins @ table_sequence amap n)"
  by (rule compile_emittable)

theorem compile_table_witness:
  "emittable [''f'' \<mapsto> 0x8000, ''x'' \<mapsto> 0x1000]
     (Node Minus None
        [Node Function (Some ''f'')
           [Node Variable (Some ''x'') [], Node Constant (Some ''0x2'') []],
         Node Constant (Some ''0x3'') []]) \<and>
   compile'
     (Node Minus None
        [Node Function (Some ''f'')
           [Node Variable (Some ''x'') [], Node Constant (Some ''0x2'') []],
         Node Constant (Some ''0x3'') []])
     [''f'' \<mapsto> 0x8000, ''x'' \<mapsto> 0x1000] [] =
   Inr [(LDR_FROM_NEXT, Some R0, None, Some ''0x1000''),
        (WORD_DECL, None, None, Some ''0x1000''),
        (LDR_REG, Some R0, Some R0, None),
        (PUSH_REG, Some R0, None, None),
        (LDR_FROM_NEXT, Some R0, None, Some ''0x2''),
        (WORD_DECL, None, None, Some ''0x2''),
        (PUSH_REG, Some R0, None, None),
        (POP_REG, Some R1, None, None),
        (POP_REG, Some R0, None, None),
        (LDR_FROM_NEXT, Some R4, None, Some ''0x8000''),
        (WORD_DECL, None, None, Some ''0x8000''),
        (BLX, Some R4, None, None),
        (PUSH_REG, Some R0, None, None),
        (LDR_FROM_NEXT, Some R0, None, Some ''0x3''),
        (WORD_DECL, None, None, Some ''0x3''),
        (PUSH_REG, Some R0, None, None),
        (POP_MULT_REG, Some R0, Some R1, None),
        (SUB, Some R0, Some R1, None),
        (PUSH_REG, Some R0, None, None)]"
  using compile_table [of "[''f'' \<mapsto> 0x8000, ''x'' \<mapsto> 0x1000]"
      "Node Minus None
        [Node Function (Some ''f'')
           [Node Variable (Some ''x'') [], Node Constant (Some ''0x2'') []],
         Node Constant (Some ''0x3'') []]" "[]"]
  by (simp add: payload_of_def show_pointer_def hex_digits.simps hex_char_def upt_rec)

section \<open>Prologue and epilogue\<close>

text \<open>
  C3.  Whenever the emitter returns a word stream, the stream starts with the two words
  \<open>0xE52DE004\<close>, \<open>0xE52D4004\<close> (push lr; push r4) and ends with the two words
  \<open>0xE49D0004\<close>, \<open>0xE8BD8010\<close> (pop r0; pop r4 and pc).  It is stated for every tree
  and directory, hence for the tree of every expression.
\<close>

theorem jit_prologue_epilogue:
  "jit_compile_tree parse_tree amap = Inr ws \<Longrightarrow>
     \<exists>middle. ws = [0xE52DE004, 0xE52D4004] @ middle @ [0xE49D0004, 0xE8BD8010]"
proof -
  assume jit: "jit_compile_tree parse_tree amap = Inr ws"
  then obtain body where
    body: "compile' parse_tree amap (add_header []) = Inr body"
    and ws: "translate_all (add_footer body) [] = Inr ws"
    by (auto simp: jit_compile_tree_def compile_def GetCompiledBinary_def split: sum.splits)
  from compile_extends [OF body] obtain b where b: "body = add_header [] @ b" by blast
  have hdr: "translate_all (add_header []) [] = Inr [0xE52DE004, 0xE52D4004]"
    by (simp add: add_header_def reg_u8_def)
  from ws b have "translate_all (add_header [] @ (b @ [(POP_REG, Some R0, None, None),
      (POP_MULT_REG, Some R4, Some PC, None)])) [] = Inr ws"
    by (simp add: add_footer_def)
  then have rest: "translate_all (b @ [(POP_REG, Some R0, None, None),
      (POP_MULT_REG, Some R4, Some PC, None)]) [0xE52DE004, 0xE52D4004] = Inr ws"
    by (simp only: translate_all_append hdr sum.case)
  then obtain acc where acc: "translate_all b [0xE52DE004, 0xE52D4004] = Inr acc"
    and ftr: "translate_all [(POP_REG, Some R0, None, None),
      (POP_MULT_REG, Some R4, Some PC, None)] acc = Inr ws"
    by (auto simp only: translate_all_append split: sum.splits)
  from translate_all_extends [OF acc] obtain middle where
    "acc = [0xE52DE004, 0xE52D4004] @ middle" by blast
  moreover from ftr have "ws = acc @ [0xE49D0004, 0xE8BD8010]"
    by (simp add: reg_u8_def)
  ultimately show ?thesis by simp
qed

theorem jit_prologue_epilogue_witness:
  "jit_compile_tree
     (Node Plus' None [Node Constant (Some ''0x2'') [], Node Variable (Some ''x'') []])
     [''x'' \<mapsto> 0x1000] =
   Inr [0xE52DE004, 0xE52D4004,
        0xE59F0000, 0xEA000000, 2, 0xE52D0004,
        0xE59F0000, 0xEA000000, 0x1000, 0xE5900000, 0xE52D0004,
        0xE8BD0003, 0xE0810000, 0xE52D0004,
        0xE49D0004, 0xE8BD8010] \<and>
   (\<exists>middle.
      [0xE52DE004, 0xE52D4004,
       0xE59F0000, 0xEA000000, 2, 0xE52D0004,
       0xE59F0000, 0xEA000000, 0x1000, 0xE5900000, 0xE52D0004,
       0xE8BD0003, 0xE0810000, 0xE52D0004,
       0xE49D0004, 0xE8BD8010] =
      [0xE52DE004, 0xE52D4004] @ middle @ [0xE49D0004, 0xE8BD8010 :: 32 word])"
proof -
  have run: "jit_compile_tree
     (Node Plus' None [Node Constant (Some ''0x2'') [], Node Variable (Some ''x'') []])
     [''x'' \<mapsto> 0x1000] =
   Inr [0xE52DE004, 0xE52D4004,
        0xE59F0000, 0xEA000000, 2, 0xE52D0004,
        0xE59F0000, 0xEA000000, 0x1000, 0xE5900000, 0xE52D0004,
        0xE8BD0003, 0xE0810000, 0xE52D0004,
        0xE49D0004, 0xE8BD8010]"
    by (simp add: jit_compile_tree_def compile_def GetCompiledBinary_def add_header_def
        add_footer_def handle_const_def handle_variable_def arith_tail_def Let_def
        show_pointer_def hex_digits.simps hex_char_def reg_u8_def stoul_def stoul_base_def
        strip_sign_def isspace_def is_digit_in_def digit_value_def digits_value_def)
  from jit_prologue_epilogue [OF run] run show ?thesis by simp
qed

section \<open>Constants: the range of a literal\<close>

text \<open>
  C5, as the code has it.  A leaf that begins with a decimal digit is rejected with
  \<open>std::out_of_range\<close> exactly when the value of its literal exceeds \<open>2 ^ 31 - 1\<close>, the
  largest \<open>int\<close>; every literal of at most \<open>2 ^ 31 - 1\<close> becomes a Constant node whose
  content, read back by \<open>stoul\<close> as the emitter does, is that value.
\<close>

theorem ParseConstant_int_range:
  assumes "left < right" "right \<le> length expression" "length expression < 2 ^ 32"
    and "IsConstant expression left"
  shows "(ParseConstant expression current_node left right = Inl out_of_range \<longleftrightarrow>
            2 ^ 31 - 1 < literal_value (leaf_text expression left right)) \<and>
         (literal_value (leaf_text expression left right) \<le> 2 ^ 31 - 1 \<longrightarrow>
            (\<exists>hex_view.
               ParseConstant expression current_node left right =
                 Inr (Node Constant (Some hex_view) (sub_expressions current_node)) \<and>
               stoul hex_view =
                 Inr (word_of_nat (literal_value (leaf_text expression left right)))))"
proof -
  let ?leaf = "leaf_text expression left right"
  let ?v = "literal_value ?leaf"
  from assms(1,2,3) have "int right - int left < 2 ^ 32" "0 \<le> int right - int left"
    by simp_all
  then have dist: "distance_size_t left right = right - left"
    by (simp add: distance_size_t_def nat_diff_distrib')
  from assms(1,2) have sub: "substr expression left (right - left) = Inr ?leaf"
    by (simp add: substr_def leaf_text_def)
  from assms(4) have "is_digit_in 10 (expression ! left)"
    by (simp add: IsConstant_def is_digit_in_10_iff)
  then have stoi: "stoi ?leaf =
      (if 2 ^ 31 - 1 < ?v then Inl out_of_range else Inr (int ?v))"
    unfolding leaf_text_Cons [OF assms(1,2)] by (rule stoi_leading_digit)
  have pc: "ParseConstant expression current_node left right =
      (if 2 ^ 31 - 1 < ?v then Inl out_of_range
       else Inr (Node Constant (Some (''0x'' @ show_hex_int (int ?v)))
                   (sub_expressions current_node)))"
    by (simp add: ParseConstant_def dist sub stoi)
  have "stoul (''0x'' @ show_hex_int (int ?v)) = Inr (word_of_nat ?v)" if "?v \<le> 2 ^ 31 - 1"
  proof -
    from that have "int ?v mod 2 ^ 32 = int ?v" by simp
    then have "show_hex_int (int ?v) = hex_digits ?v" by (simp add: show_hex_int_def)
    moreover have "stoul (''0x'' @ hex_digits ?v) = Inr (word_of_nat ?v)"
      using stoul_hex [of "hex_digits ?v"] that
      by (simp add: hex_digits_value hex_digits_nonempty hex_digits_are_digits)
    ultimately show ?thesis by simp
  qed
  with pc show ?thesis by auto
qed

theorem ParseConstant_int_range_witness:
  "(0::nat) < 3 \<and> 3 \<le> length ''255'' \<and> IsConstant ''255'' 0 \<and>
   literal_value (leaf_text ''255'' 0 3) = 255 \<and>
   ParseConstant ''255'' (Node Default None []) 0 3 \<noteq> Inl out_of_range \<and>
   (\<exists>hex_view. ParseConstant ''255'' (Node Default None []) 0 3 =
        Inr (Node Constant (Some hex_view) []) \<and> stoul hex_view = Inr 255)"
proof -
  have v: "literal_value (leaf_text ''255'' 0 3) = 255"
    by (simp add: literal_value_def leaf_text_def is_digit_in_def digit_value_def
        digits_value_def)
  have c: "IsConstant ''255'' 0" by (simp add: IsConstant_def)
  show ?thesis
    using ParseConstant_int_range [of 0 3 "''255''" "Node Default None []"] v c by simp
qed

text \<open>
  C5 as stated fails between \<open>2 ^ 31\<close> and \<open>2 ^ 32 - 1\<close>: the literal
  \<open>2147483648\<close> fits in 32 bits and is rejected.
\<close>

theorem ParseConstant_rejects_31_bits:
  "IsConstant ''2147483648'' 0 \<and>
   literal_value (leaf_text ''2147483648'' 0 10) = 2147483648 \<and>
   \<not> (2 ^ 32 - 1 < literal_value (leaf_text ''2147483648'' 0 10)) \<and>
   ParseConstant ''2147483648'' (Node Default None []) 0 10 = Inl out_of_range"
  by (simp add: IsConstant_def literal_value_def leaf_text_def ParseConstant_def substr_def
      distance_size_t_def stoi_def isspace_def strip_sign_def is_digit_in_def digit_value_def
      digits_value_def)

section \<open>Calls with more arguments than registers\<close>




section \<open>The emitted code returns the value of the expression\<close>




end
